theory Spec2Isabelle
  imports Main "HOL-Library.Sublist"
begin

section \<open>Values, objects and the global state of the reactivity engine\<close>

text \<open>
  The engine is a set of JavaScript globals (\<open>activeEffect\<close>, \<open>effectStack\<close>,
  \<open>targetMap\<close>, \<open>queue\<close>, \<open>isFlushPending\<close>) and of closures over them.  The globals
  become the fields of one state record that every operation takes and returns.  Objects
  have identity, so they live in a heap indexed by addresses; a JavaScript \<open>Map\<close> or
  \<open>Set\<close> keeps insertion order, so it is a list.
\<close>

type_synonym addr = nat
type_synonym fid = nat

text \<open>Property keys: a name, or the canonical string of an array index.\<close>

datatype key = Name string | Idx nat

text \<open>JavaScript values; numbers are restricted to integers (no \<open>NaN\<close>).\<close>

datatype val = Undefined | Null | Bool bool | Num int | Str string | Obj addr

text \<open>
  The closures that are used as jobs and as subscribers: the \<open>wrappedEffect\<close> of the
  n-th call of \<open>watchEffect\<close>, the \<open>computedEffect\<close> of the computed cell at an address,
  and the closure made by the n-th call of \<open>effect\<close> (day-2).
\<close>

datatype job = WrappedEffect nat | ComputedEffect addr | PlainEffect nat

text \<open>How a call ends: it returns a value or an exception propagates out of it.\<close>

datatype 'a outcome = Returns 'a | Throws

text \<open>
  The three proxy handlers of the repository: \<open>reactive\<close> of day-2 and day-6 (the same
  text), \<open>readonly\<close> of day-6, \<open>reactive\<close> of day-7.
\<close>

datatype handler = Reactive2 | Readonly6 | Reactive7

text \<open>
  Heap objects: an ordinary object with its own data properties in insertion order, an
  array (elements, holes read as \<open>undefined\<close>, and further named properties), and a
  proxy with its handler, whether \<open>Array.isArray\<close> holds of it, and its target.
\<close>

datatype obj =
    Plain "(key \<times> val) list"
  | Array "val list" "(key \<times> val) list"
  | Proxy handler bool addr

record computed_cell =
  cvalue :: val
  dirty :: bool
  getter :: fid

record 'u state =
  activeEffect :: "job option"
  effectStack :: "job list"
  targetMap :: "(addr \<times> (key \<times> job list) list) list"
  queue :: "job option list"
  isFlushPending :: bool
  microtasks :: nat
  heap :: "addr \<rightharpoonup> obj"
  refValue :: "addr \<rightharpoonup> val"
  computedCell :: "addr \<rightharpoonup> computed_cell"
  nextAddr :: addr
  effectFn :: "nat \<Rightarrow> fid"
  cleanup :: "nat \<Rightarrow> fid option"
  nextEffect :: nat
  console :: "string list"
  user :: 'u

text \<open>
  \<open>queue\<close> is the \<open>Set\<close> of pending jobs as ECMAScript specifies it: a list of entries
  where \<open>add\<close> appends an absent value, \<open>delete\<close> replaces the entry by an empty one
  (\<open>None\<close>), and an iterator walks the list by index, so that entries appended while it
  runs are visited.  \<open>microtasks\<close> counts the \<open>flushJobs\<close> callbacks handed to
  \<open>Promise.resolve().then\<close> that have not run yet.  \<open>refValue\<close> holds the closure
  variable \<open>value\<close> of every accessor-style ref, \<open>effectFn\<close> and \<open>cleanup\<close> the
  closure variables \<open>effect\<close> and \<open>cleanup\<close> of every call of \<open>watchEffect\<close>,
  \<open>console\<close> the lines written by \<open>console.warn\<close>, \<open>user\<close> the variables of the
  surrounding program.
\<close>

text \<open>
  The functions passed in by the surrounding program.  They are referred to by number in
  the state; what they do is given by this table.  An effect body receives the number of
  its \<open>wrappedEffect\<close>, which stands for the \<open>registerCleanup\<close> closure it is passed.
\<close>

record 'u prog =
  effectBody :: "fid \<Rightarrow> nat \<Rightarrow> 'u state \<Rightarrow> unit outcome \<times> 'u state"
  cleanupBody :: "fid \<Rightarrow> 'u state \<Rightarrow> unit outcome \<times> 'u state"
  getterBody :: "fid \<Rightarrow> 'u state \<Rightarrow> val outcome \<times> 'u state"

definition init :: "'u \<Rightarrow> 'u state" where
  "init u = \<lparr> activeEffect = None, effectStack = [], targetMap = [], queue = [],
     isFlushPending = False, microtasks = 0, heap = Map.empty, refValue = Map.empty,
     computedCell = Map.empty, nextAddr = 0, effectFn = (\<lambda>_. 0), cleanup = (\<lambda>_. None),
     nextEffect = 0, console = [], user = u \<rparr>"

subsection \<open>Map and Set operations\<close>

text \<open>\<open>Map.prototype.set\<close>: an existing key keeps its place, a new key goes last.\<close>

fun mapSet :: "'k \<Rightarrow> 'v \<Rightarrow> ('k \<times> 'v) list \<Rightarrow> ('k \<times> 'v) list" where
  "mapSet k v [] = [(k, v)]"
| "mapSet k v (p # m) = (if fst p = k then (k, v) # m else p # mapSet k v m)"

definition setAdd :: "'a \<Rightarrow> 'a list \<Rightarrow> 'a list" where
  "setAdd x xs = (if x \<in> set xs then xs else xs @ [x])"

text \<open>The live entries of the job queue, in insertion order.\<close>

definition members :: "'a option list \<Rightarrow> 'a list" where
  "members q = concat (map (\<lambda>e. case e of None \<Rightarrow> [] | Some x \<Rightarrow> [x]) q)"

definition queueAdd :: "'a \<Rightarrow> 'a option list \<Rightarrow> 'a option list" where
  "queueAdd x q = (if Some x \<in> set q then q else q @ [Some x])"

definition queueDelete :: "'a \<Rightarrow> 'a option list \<Rightarrow> 'a option list" where
  "queueDelete x q = map (\<lambda>e. if e = Some x then None else e) q"

subsection \<open>The scheduler: \<open>queueJob\<close> and \<open>flushJobs\<close>\<close>

definition queueJob :: "job \<Rightarrow> 'u state \<Rightarrow> 'u state" where
  "queueJob j s =
     (let s1 = s\<lparr>queue := queueAdd j (queue s)\<rparr>
      in if \<not> isFlushPending s1
         then s1\<lparr>isFlushPending := True, microtasks := Suc (microtasks s1)\<rparr>
         else s1)"

text \<open>
  The loop \<open>for (const job of queue) job()\<close> at entry index \<open>i\<close>.  What a job does is
  the parameter \<open>run\<close>.  A job may enqueue jobs for ever, so the loop carries fuel and
  \<open>None\<close> means that it did not come to an end.  An exception ends the loop where it is.
\<close>

fun flushLoop ::
  "(job \<Rightarrow> 'u state \<Rightarrow> unit outcome \<times> 'u state) \<Rightarrow> nat \<Rightarrow> nat \<Rightarrow> 'u state
     \<Rightarrow> (unit outcome \<times> 'u state) option" where
  "flushLoop run 0 i s = None"
| "flushLoop run (Suc n) i s =
     (if i < length (queue s) then
        (case queue s ! i of
           None \<Rightarrow> flushLoop run n (Suc i) s
         | Some j \<Rightarrow>
             (case run j s of
                (Throws, s1) \<Rightarrow> Some (Throws, s1)
              | (Returns _, s1) \<Rightarrow> flushLoop run n (Suc i) s1))
      else Some (Returns (), s))"

definition flushJobs ::
  "(job \<Rightarrow> 'u state \<Rightarrow> unit outcome \<times> 'u state) \<Rightarrow> nat \<Rightarrow> 'u state
     \<Rightarrow> (unit outcome \<times> 'u state) option" where
  "flushJobs run fuel s =
     (case flushLoop run fuel 0 s of
        None \<Rightarrow> None
      | Some (Throws, s1) \<Rightarrow> Some (Throws, s1)
      | Some (Returns _, s1) \<Rightarrow> Some (Returns (), s1\<lparr>queue := [], isFlushPending := False\<rparr>))"


text \<open>
  The same loop once more, returning with every job it invoked the index of the queue
  entry where it found the job.
\<close>

fun flushLoopP ::
  "(job \<Rightarrow> 'u state \<Rightarrow> unit outcome \<times> 'u state) \<Rightarrow> nat \<Rightarrow> nat \<Rightarrow> 'u state
     \<Rightarrow> (unit outcome \<times> 'u state \<times> (nat \<times> job) list) option" where
  "flushLoopP run 0 i s = None"
| "flushLoopP run (Suc n) i s =
     (if i < length (queue s) then
        (case queue s ! i of
           None \<Rightarrow> flushLoopP run n (Suc i) s
         | Some j \<Rightarrow>
             (case run j s of
                (Throws, s1) \<Rightarrow> Some (Throws, s1, [(i, j)])
              | (Returns _, s1) \<Rightarrow>
                  (case flushLoopP run n (Suc i) s1 of
                     None \<Rightarrow> None
                   | Some (r, s2, js) \<Rightarrow> Some (r, s2, (i, j) # js))))
      else Some (Returns (), s, []))"

text \<open>
  The microtask checkpoint: every pending \<open>flushJobs\<close> callback is run; an exception
  out of one is an unhandled rejection and the next callback runs.
\<close>

fun runMicrotasks ::
  "(job \<Rightarrow> 'u state \<Rightarrow> unit outcome \<times> 'u state) \<Rightarrow> nat \<Rightarrow> 'u state \<Rightarrow> 'u state option" where
  "runMicrotasks run 0 s = None"
| "runMicrotasks run (Suc n) s =
     (if microtasks s = 0 then Some s
      else (case flushJobs run n (s\<lparr>microtasks := microtasks s - 1\<rparr>) of
              None \<Rightarrow> None
            | Some (_, s1) \<Rightarrow> runMicrotasks run n s1))"

subsection \<open>The dependency graph: \<open>track\<close>, \<open>trigger\<close>, \<open>removeEffect\<close>\<close>

definition subscribers :: "'u state \<Rightarrow> addr \<Rightarrow> key \<Rightarrow> job list" where
  "subscribers s target k =
     (case map_of (targetMap s) target of
        None \<Rightarrow> []
      | Some depsMap \<Rightarrow> (case map_of depsMap k of None \<Rightarrow> [] | Some dep \<Rightarrow> dep))"

definition track :: "addr \<Rightarrow> key \<Rightarrow> 'u state \<Rightarrow> 'u state" where
  "track target k s =
     (case activeEffect s of
        None \<Rightarrow> s
      | Some e \<Rightarrow>
          (let depsMap = (case map_of (targetMap s) target of None \<Rightarrow> [] | Some m \<Rightarrow> m);
               dep = (case map_of depsMap k of None \<Rightarrow> [] | Some d \<Rightarrow> d)
           in s\<lparr>targetMap := mapSet target (mapSet k (setAdd e dep) depsMap) (targetMap s)\<rparr>))"

definition trigger :: "addr \<Rightarrow> key \<Rightarrow> 'u state \<Rightarrow> 'u state" where
  "trigger target k s =
     (case map_of (targetMap s) target of
        None \<Rightarrow> s
      | Some depsMap \<Rightarrow>
          (case map_of depsMap k of
             None \<Rightarrow> s
           | Some dep \<Rightarrow> fold queueJob dep s))"

fun pruneDeps :: "job \<Rightarrow> (key \<times> job list) list \<Rightarrow> (key \<times> job list) list" where
  "pruneDeps e [] = []"
| "pruneDeps e ((k, dep) # m) =
     (if e \<in> set dep then
        (if removeAll e dep = [] then pruneDeps e m else (k, removeAll e dep) # pruneDeps e m)
      else (k, dep) # pruneDeps e m)"

fun pruneTargets ::
  "job \<Rightarrow> (addr \<times> (key \<times> job list) list) list \<Rightarrow> (addr \<times> (key \<times> job list) list) list" where
  "pruneTargets e [] = []"
| "pruneTargets e ((t, depsMap) # tm) =
     (if pruneDeps e depsMap = [] then pruneTargets e tm
      else (t, pruneDeps e depsMap) # pruneTargets e tm)"

definition removeEffect :: "job \<Rightarrow> 'u state \<Rightarrow> 'u state" where
  "removeEffect e s = s\<lparr>targetMap := pruneTargets e (targetMap s)\<rparr>"

subsection \<open>The effect context and \<open>watchEffect\<close>\<close>

definition pushEffect :: "job \<Rightarrow> 'u state \<Rightarrow> 'u state" where
  "pushEffect e s = s\<lparr>effectStack := effectStack s @ [e], activeEffect := Some e\<rparr>"

definition popEffect :: "'u state \<Rightarrow> 'u state" where
  "popEffect s =
     (let st = butlast (effectStack s)
      in s\<lparr>effectStack := st, activeEffect := (if st = [] then None else Some (last st))\<rparr>)"

text \<open>\<open>if (cleanup) cleanup()\<close> for the closure variable of the n-th \<open>watchEffect\<close>.\<close>

definition runCleanup :: "'u prog \<Rightarrow> nat \<Rightarrow> 'u state \<Rightarrow> unit outcome \<times> 'u state" where
  "runCleanup P n s =
     (case cleanup s n of None \<Rightarrow> (Returns (), s) | Some c \<Rightarrow> cleanupBody P c s)"

text \<open>\<open>wrappedEffect\<close> as day-4 to day-7 have it, with the effect stack.\<close>

definition wrappedEffect :: "'u prog \<Rightarrow> nat \<Rightarrow> 'u state \<Rightarrow> unit outcome \<times> 'u state" where
  "wrappedEffect P n s =
     (case runCleanup P n s of
        (Throws, s1) \<Rightarrow> (Throws, s1)
      | (Returns _, s1) \<Rightarrow>
          (let s2 = pushEffect (WrappedEffect n) s1;
               s3 = s2\<lparr>cleanup := (cleanup s2)(n := None)\<rparr>
           in case effectBody P (effectFn s3 n) n s3 of
                (r, s4) \<Rightarrow> (r, popEffect s4)))"

text \<open>\<open>wrappedEffect\<close> as the first scheduler version has it, with \<open>activeEffect\<close> alone.\<close>

definition wrappedEffect0 :: "'u prog \<Rightarrow> nat \<Rightarrow> 'u state \<Rightarrow> unit outcome \<times> 'u state" where
  "wrappedEffect0 P n s =
     (case runCleanup P n s of
        (Throws, s1) \<Rightarrow> (Throws, s1)
      | (Returns _, s1) \<Rightarrow>
          (let s2 = s1\<lparr>activeEffect := Some (WrappedEffect n)\<rparr>;
               s3 = s2\<lparr>cleanup := (cleanup s2)(n := None)\<rparr>
           in case effectBody P (effectFn s3 n) n s3 of
                (r, s4) \<Rightarrow> (r, s4\<lparr>activeEffect := None\<rparr>)))"

definition registerCleanup :: "nat \<Rightarrow> fid \<Rightarrow> 'u state \<Rightarrow> 'u state" where
  "registerCleanup n fn s = s\<lparr>cleanup := (cleanup s)(n := Some fn)\<rparr>"

text \<open>\<open>watchEffect(effect)\<close>; the number it returns stands for the \<open>stop\<close> closure.\<close>

definition watchEffect :: "fid \<Rightarrow> 'u state \<Rightarrow> nat \<times> 'u state" where
  "watchEffect f s =
     (let n = nextEffect s;
          s1 = s\<lparr>nextEffect := Suc n, effectFn := (effectFn s)(n := f),
                 cleanup := (cleanup s)(n := None)\<rparr>
      in (n, queueJob (WrappedEffect n) s1))"

text \<open>
  The closure that \<open>watchEffect\<close> returns, in the first scheduler version and in day-4
  to day-6.
\<close>

definition stop :: "'u prog \<Rightarrow> nat \<Rightarrow> 'u state \<Rightarrow> unit outcome \<times> 'u state" where
  "stop P n s =
     (let s1 = s\<lparr>queue := queueDelete (WrappedEffect n) (queue s)\<rparr>
      in case runCleanup P n s1 of
           (Throws, s2) \<Rightarrow> (Throws, s2)
         | (Returns _, s2) \<Rightarrow> (Returns (), removeEffect (WrappedEffect n) s2))"


subsection \<open>Accessor-style \<open>ref\<close>\<close>

definition ref :: "val \<Rightarrow> 'u state \<Rightarrow> addr \<times> 'u state" where
  "ref v s =
     (let r = nextAddr s
      in (r, s\<lparr>refValue := (refValue s)(r \<mapsto> v), nextAddr := Suc r\<rparr>))"

definition refGet :: "addr \<Rightarrow> 'u state \<Rightarrow> val \<times> 'u state" where
  "refGet r s =
     (let s1 = track r (Name ''value'') s
      in (case refValue s1 r of None \<Rightarrow> Undefined | Some v \<Rightarrow> v, s1))"

definition refSet :: "addr \<Rightarrow> val \<Rightarrow> 'u state \<Rightarrow> 'u state" where
  "refSet r v s = trigger r (Name ''value'') (s\<lparr>refValue := (refValue s)(r \<mapsto> v)\<rparr>)"

subsection \<open>Jobs of the scheduler versions\<close>

definition computedEffect :: "addr \<Rightarrow> 'u state \<Rightarrow> 'u state" where
  "computedEffect c s =
     trigger c (Name ''value'')
       (s\<lparr>computedCell :=
            (case computedCell s c of
               None \<Rightarrow> computedCell s
             | Some cell \<Rightarrow> (computedCell s)(c \<mapsto> cell\<lparr>dirty := True\<rparr>))\<rparr>)"

text \<open>Calling a job of the first scheduler version: only \<open>wrappedEffect\<close> closures exist.\<close>

definition runJob0 :: "'u prog \<Rightarrow> job \<Rightarrow> 'u state \<Rightarrow> unit outcome \<times> 'u state" where
  "runJob0 P j s =
     (case j of
        WrappedEffect n \<Rightarrow> wrappedEffect0 P n s
      | ComputedEffect c \<Rightarrow> (Returns (), s)
      | PlainEffect n \<Rightarrow> (Returns (), s))"

text \<open>Calling a job of day-4 to day-7.\<close>

definition runJob :: "'u prog \<Rightarrow> job \<Rightarrow> 'u state \<Rightarrow> unit outcome \<times> 'u state" where
  "runJob P j s =
     (case j of
        WrappedEffect n \<Rightarrow> wrappedEffect P n s
      | ComputedEffect c \<Rightarrow> (Returns (), computedEffect c s)
      | PlainEffect n \<Rightarrow> (Returns (), s))"

subsection \<open>\<open>computed\<close>\<close>



subsection \<open>Objects, arrays and proxies\<close>

definition truthy :: "val \<Rightarrow> bool" where
  "truthy v =
     (case v of
        Undefined \<Rightarrow> False | Null \<Rightarrow> False | Bool b \<Rightarrow> b
      | Num n \<Rightarrow> n \<noteq> 0 | Str x \<Rightarrow> x \<noteq> [] | Obj a \<Rightarrow> True)"

definition ownProp :: "(key \<times> val) list \<Rightarrow> key \<Rightarrow> val" where
  "ownProp ps k = (case map_of ps k of None \<Rightarrow> Undefined | Some v \<Rightarrow> v)"

text \<open>
  Reading a property of an array itself.  An array index is a key below \<open>2^32 - 1\<close>;
  the canonical string of a larger number is the key of an ordinary property.
\<close>

definition arrayProp :: "val list \<Rightarrow> (key \<times> val) list \<Rightarrow> key \<Rightarrow> val" where
  "arrayProp xs ps k =
     (case k of
        Idx i \<Rightarrow>
          (if i < length xs then xs ! i
           else if i < 4294967295 then Undefined else ownProp ps k)
      | Name nm \<Rightarrow> (if nm = ''length'' then Num (int (length xs)) else ownProp ps k))"

text \<open>
  What a write to a property of an array itself comes to: the array as written, a
  \<open>RangeError\<close>, or a case that is left out of the model.
\<close>

datatype 'a written = Written 'a | RangeError | NotModelled

text \<open>
  The length that a value written to \<open>length\<close> stands for.  The engine converts the
  value to a number and accepts it when it is an integer from 0 to \<open>2^32 - 1\<close>:
  \<open>null\<close> and \<open>false\<close> count as 0, \<open>true\<close> as 1, a string of decimal digits as the
  number it spells, the empty string as 0; \<open>undefined\<close> converts to \<open>NaN\<close>, which is
  a \<open>RangeError\<close>.  The other spellings of a number in a string (sign, fraction,
  exponent, radix prefix, surrounding white space) and the conversion of an object, which
  calls its methods, are left out of the model.
\<close>

definition digit :: "char \<Rightarrow> bool" where
  "digit c \<longleftrightarrow> 48 \<le> (of_char c :: nat) \<and> (of_char c :: nat) \<le> 57"

definition digitsValue :: "string \<Rightarrow> nat" where
  "digitsValue x = fold (\<lambda>c n. 10 * n + ((of_char c :: nat) - 48)) x 0"

definition toLength :: "val \<Rightarrow> nat written" where
  "toLength v =
     (case v of
        Undefined \<Rightarrow> RangeError
      | Null \<Rightarrow> Written 0
      | Bool b \<Rightarrow> Written (if b then 1 else 0)
      | Num l \<Rightarrow> if 0 \<le> l \<and> l < 4294967296 then Written (nat l) else RangeError
      | Str x \<Rightarrow>
          if list_all digit x then
            (if digitsValue x < 4294967296 then Written (digitsValue x) else RangeError)
          else NotModelled
      | Obj a \<Rightarrow> NotModelled)"

text \<open>
  Writing a property of an array itself.  An index at or beyond the length grows the
  array, the skipped places reading as \<open>undefined\<close>; a write to \<open>length\<close> cuts or
  grows the array to the length that the value stands for.
\<close>

definition arraySet :: "val list \<Rightarrow> (key \<times> val) list \<Rightarrow> key \<Rightarrow> val \<Rightarrow> obj written" where
  "arraySet xs ps k v =
     (case k of
        Idx i \<Rightarrow>
          if i < length xs then Written (Array (xs[i := v]) ps)
          else if i < 4294967295
            then Written (Array (xs @ replicate (i - length xs) Undefined @ [v]) ps)
            else Written (Array xs (mapSet k v ps))
      | Name nm \<Rightarrow>
          if nm = ''length'' then
            (case toLength v of
               Written l \<Rightarrow> Written (Array (take l xs @ replicate (l - length xs) Undefined) ps)
             | RangeError \<Rightarrow> RangeError
             | NotModelled \<Rightarrow> NotModelled)
          else Written (Array xs (mapSet k v ps)))"

definition isArray :: "'u state \<Rightarrow> addr \<Rightarrow> bool" where
  "isArray s a =
     (case heap s a of
        Some (Array xs ps) \<Rightarrow> True
      | Some (Proxy h arr t) \<Rightarrow> arr
      | _ \<Rightarrow> False)"

definition newObject :: "obj \<Rightarrow> 'u state \<Rightarrow> addr \<times> 'u state" where
  "newObject ob s =
     (let a = nextAddr s in (a, s\<lparr>heap := (heap s)(a \<mapsto> ob), nextAddr := Suc a\<rparr>))"

text \<open>\<open>new Proxy(target, handler)\<close>: every call makes a new object.\<close>

definition newProxy :: "handler \<Rightarrow> addr \<Rightarrow> 'u state \<Rightarrow> val \<times> 'u state" where
  "newProxy h t s = (case newObject (Proxy h (isArray s t) t) s of (p, s1) \<Rightarrow> (Obj p, s1))"

text \<open>\<open>reactive\<close> of day-2 and day-6 and \<open>readonly\<close> of day-6, called on an object.\<close>

definition reactive2 :: "addr \<Rightarrow> 'u state \<Rightarrow> val \<times> 'u state" where
  "reactive2 t s = newProxy Reactive2 t s"

definition readonly :: "addr \<Rightarrow> 'u state \<Rightarrow> val \<times> 'u state" where
  "readonly t s = newProxy Readonly6 t s"

text \<open>\<open>reactive\<close> of day-7: a value that is not an object is returned as it is.\<close>

definition reactive7 :: "val \<Rightarrow> 'u state \<Rightarrow> val \<times> 'u state" where
  "reactive7 v s = (case v of Obj t \<Rightarrow> newProxy Reactive7 t s | _ \<Rightarrow> (v, s))"

text \<open>
  Reading property \<open>k\<close> of the object at \<open>a\<close>.  For a proxy this is its \<open>get\<close> trap:
  \<open>Reflect.get\<close> on the target, which may be a proxy again, so the read carries fuel
  and \<open>None\<close> means that the nesting did not end.  In the day-7 trap \<open>isRef(result)\<close>
  reads \<open>result.__v_isRef\<close> and, when that is truthy, the trap returns \<open>result.value\<close>
  before \<open>track(target, key)\<close> is reached.
\<close>

fun getProp :: "nat \<Rightarrow> addr \<Rightarrow> key \<Rightarrow> 'u state \<Rightarrow> (val \<times> 'u state) option" where
  "getProp 0 a k s = None"
| "getProp (Suc n) a k s =
     (case heap s a of
        None \<Rightarrow> Some (Undefined, s)
      | Some (Plain ps) \<Rightarrow> Some (ownProp ps k, s)
      | Some (Array xs ps) \<Rightarrow> Some (arrayProp xs ps k, s)
      | Some (Proxy h arr t) \<Rightarrow>
          (case getProp n t k s of
             None \<Rightarrow> None
           | Some (res, s1) \<Rightarrow>
               (case h of
                  Reactive2 \<Rightarrow>
                    (let s2 = track t k s1
                     in Some (case res of Obj r \<Rightarrow> reactive2 r s2 | _ \<Rightarrow> (res, s2)))
                | Readonly6 \<Rightarrow>
                    (let s2 = track t k s1
                     in Some (case res of Obj r \<Rightarrow> readonly r s2 | _ \<Rightarrow> (res, s2)))
                | Reactive7 \<Rightarrow>
                    (case res of
                       Obj r \<Rightarrow>
                         (case getProp n r (Name ''__v_isRef'') s1 of
                            None \<Rightarrow> None
                          | Some (m, s2) \<Rightarrow>
                              if truthy m then getProp n r (Name ''value'') s2
                              else Some (reactive7 res (track t k s2)))
                     | _ \<Rightarrow> Some (reactive7 res (track t k s1))))))"

text \<open>\<open>isRef(value)\<close>, that is \<open>!!(value && value.__v_isRef)\<close>.\<close>

definition isRef :: "nat \<Rightarrow> val \<Rightarrow> 'u state \<Rightarrow> (bool \<times> 'u state) option" where
  "isRef n v s =
     (case v of
        Obj r \<Rightarrow>
          (case getProp n r (Name ''__v_isRef'') s of
             None \<Rightarrow> None
           | Some (m, s1) \<Rightarrow> Some (truthy m, s1))
      | _ \<Rightarrow> Some (False, s))"

text \<open>
  \<open>trigger\<close> of day-2 calls the subscribers at once: \<open>dep.forEach((effect) => effect())\<close>.
  A subscriber added to the set while the loop runs is visited too.
\<close>

fun triggerLoop2 ::
  "(job \<Rightarrow> 'u state \<Rightarrow> unit outcome \<times> 'u state) \<Rightarrow> nat \<Rightarrow> addr \<Rightarrow> key \<Rightarrow> nat \<Rightarrow> 'u state
     \<Rightarrow> (unit outcome \<times> 'u state) option" where
  "triggerLoop2 run 0 t k i s = None"
| "triggerLoop2 run (Suc n) t k i s =
     (if i < length (subscribers s t k) then
        (case run (subscribers s t k ! i) s of
           (Throws, s1) \<Rightarrow> Some (Throws, s1)
         | (Returns _, s1) \<Rightarrow> triggerLoop2 run n t k (Suc i) s1)
      else Some (Returns (), s))"

definition trigger2 ::
  "(job \<Rightarrow> 'u state \<Rightarrow> unit outcome \<times> 'u state) \<Rightarrow> nat \<Rightarrow> addr \<Rightarrow> key \<Rightarrow> 'u state
     \<Rightarrow> (unit outcome \<times> 'u state) option" where
  "trigger2 run fuel t k s =
     (case map_of (targetMap s) t of
        None \<Rightarrow> Some (Returns (), s)
      | Some depsMap \<Rightarrow>
          (case map_of depsMap k of
             None \<Rightarrow> Some (Returns (), s)
           | Some dep \<Rightarrow> triggerLoop2 run fuel t k 0 s))"

text \<open>
  Writing property \<open>k\<close> of the object at \<open>a\<close>; for a proxy this is its \<open>set\<close> trap.  The
  day-2 trap runs the subscribers through \<open>run\<close>; the day-7 traps only enqueue them.
  The day-7 handler of an array has its own trap, chosen when the proxy is made.  \<open>None\<close>
  means that the write has no result here: the nesting of proxies did not end within the
  fuel, or the write is one of the conversions left out of the model.
\<close>

fun setProp ::
  "(job \<Rightarrow> 'u state \<Rightarrow> unit outcome \<times> 'u state) \<Rightarrow> nat \<Rightarrow> addr \<Rightarrow> key \<Rightarrow> val \<Rightarrow> 'u state
     \<Rightarrow> (bool outcome \<times> 'u state) option" where
  "setProp run 0 a k v s = None"
| "setProp run (Suc n) a k v s =
     (case heap s a of
        None \<Rightarrow> Some (Returns True, s)
      | Some (Plain ps) \<Rightarrow> Some (Returns True, s\<lparr>heap := (heap s)(a \<mapsto> Plain (mapSet k v ps))\<rparr>)
      | Some (Array xs ps) \<Rightarrow>
          (case arraySet xs ps k v of
             Written ob \<Rightarrow> Some (Returns True, s\<lparr>heap := (heap s)(a \<mapsto> ob)\<rparr>)
           | RangeError \<Rightarrow> Some (Throws, s)
           | NotModelled \<Rightarrow> None)
      | Some (Proxy h arr t) \<Rightarrow>
          (case h of
             Readonly6 \<Rightarrow>
               Some (Returns True, s\<lparr>console := console s @ [''Cannot set readonly property.'']\<rparr>)
           | Reactive2 \<Rightarrow>
               (case getProp n t k s of
                  None \<Rightarrow> None
                | Some (oldValue, s1) \<Rightarrow>
                    (case setProp run n t k v s1 of
                       None \<Rightarrow> None
                     | Some (Throws, s2) \<Rightarrow> Some (Throws, s2)
                     | Some (Returns result, s2) \<Rightarrow>
                         if result \<and> oldValue \<noteq> v then
                           (case trigger2 run n t k s2 of
                              None \<Rightarrow> None
                            | Some (Throws, s3) \<Rightarrow> Some (Throws, s3)
                            | Some (Returns _, s3) \<Rightarrow> Some (Returns result, s3))
                         else Some (Returns result, s2)))
           | Reactive7 \<Rightarrow>
               (case getProp n t k s of
                  None \<Rightarrow> None
                | Some (oldValue, s1) \<Rightarrow>
                    if arr then
                      (case setProp run n t k v s1 of
                         None \<Rightarrow> None
                       | Some (Throws, s2) \<Rightarrow> Some (Throws, s2)
                       | Some (Returns result, s2) \<Rightarrow>
                           if result \<and> oldValue \<noteq> v then
                             (let s3 = trigger t k s2
                              in Some (Returns result,
                                   if k \<noteq> Name ''length'' then trigger t (Name ''length'') s3 else s3))
                           else Some (Returns result, s2))
                    else
                      (case isRef n oldValue s1 of
                         None \<Rightarrow> None
                       | Some (oldIsRef, s2) \<Rightarrow>
                           (case (if oldIsRef then isRef n v s2 else Some (False, s2)) of
                              None \<Rightarrow> None
                            | Some (newIsRef, s3) \<Rightarrow>
                                if oldIsRef \<and> \<not> newIsRef then
                                  (case oldValue of
                                     Obj r \<Rightarrow>
                                       (case setProp run n r (Name ''value'') v s3 of
                                          None \<Rightarrow> None
                                        | Some (Throws, s4) \<Rightarrow> Some (Throws, s4)
                                        | Some (Returns _, s4) \<Rightarrow> Some (Returns True, s4))
                                   | _ \<Rightarrow> Some (Returns True, s3))
                                else
                                  (case setProp run n t k v s3 of
                                     None \<Rightarrow> None
                                   | Some (Throws, s4) \<Rightarrow> Some (Throws, s4)
                                   | Some (Returns result, s4) \<Rightarrow>
                                       Some (Returns result,
                                         if result \<and> oldValue \<noteq> v then trigger t k s4 else s4)))))))"



text \<open>\<open>ref\<close> of day-7: \<open>reactive({ __v_isRef: true, value: initialValue })\<close>.\<close>

definition ref7 :: "val \<Rightarrow> 'u state \<Rightarrow> val \<times> 'u state" where
  "ref7 v s =
     (case newObject (Plain [(Name ''__v_isRef'', Bool True), (Name ''value'', v)]) s of
        (a, s1) \<Rightarrow> reactive7 (Obj a) s1)"

text \<open>
  \<open>Array.prototype.push\<close> with one argument, called on the object at \<open>p\<close>: the method
  is read, \<open>length\<close> is read, the element is written at that index, \<open>length\<close> is
  written.  Through a proxy each step is a trap call.
\<close>

definition arrayPush ::
  "(job \<Rightarrow> 'u state \<Rightarrow> unit outcome \<times> 'u state) \<Rightarrow> nat \<Rightarrow> addr \<Rightarrow> val \<Rightarrow> 'u state
     \<Rightarrow> (val outcome \<times> 'u state) option" where
  "arrayPush run fuel p v s =
     (case getProp fuel p (Name ''push'') s of
        None \<Rightarrow> None
      | Some (_, s1) \<Rightarrow>
          (case getProp fuel p (Name ''length'') s1 of
             None \<Rightarrow> None
           | Some (len, s2) \<Rightarrow>
               (let l = (case len of Num x \<Rightarrow> nat x | _ \<Rightarrow> 0)
                in case setProp run fuel p (Idx l) v s2 of
                     None \<Rightarrow> None
                   | Some (Throws, s3) \<Rightarrow> Some (Throws, s3)
                   | Some (Returns _, s3) \<Rightarrow>
                       (case setProp run fuel p (Name ''length'') (Num (int l + 1)) s3 of
                          None \<Rightarrow> None
                        | Some (Throws, s4) \<Rightarrow> Some (Throws, s4)
                        | Some (Returns _, s4) \<Rightarrow> Some (Returns (Num (int l + 1)), s4)))))"

subsection \<open>\<open>effect\<close> of day-2\<close>




subsection \<open>The end-to-end scenario\<close>

text \<open>
  The program \<open>watchEffect(() => log.push(c.value))\<close>: its one function pushes the value
  of the ref \<open>c\<close> on the list \<open>log\<close>, which is the user variable of the state.
\<close>

definition logger :: "addr \<Rightarrow> (val list) prog" where
  "logger c =
     \<lparr> effectBody = (\<lambda>f n s. case refGet c s of (v, s1) \<Rightarrow> (Returns (), s1\<lparr>user := user s1 @ [v]\<rparr>)),
       cleanupBody = (\<lambda>f s. (Returns (), s)),
       getterBody = (\<lambda>f s. (Returns Undefined, s)) \<rparr>"

text \<open>
  \<open>const c = ref(v0); watchEffect(...); c.value = v1; c.value = v2\<close> and then the
  microtask checkpoint, as the scenario is written.
\<close>

definition scenario :: "val \<Rightarrow> val \<Rightarrow> val \<Rightarrow> (val list) state option" where
  "scenario v0 v1 v2 =
     (case ref v0 (init []) of (c, s1) \<Rightarrow>
      case watchEffect 0 s1 of (n, s2) \<Rightarrow>
      runMicrotasks (runJob0 (logger c)) 10 (refSet c v2 (refSet c v1 s2)))"

text \<open>The same with a microtask checkpoint between \<open>watchEffect\<close> and the writes.\<close>

definition scenarioFlushed :: "val \<Rightarrow> val \<Rightarrow> val \<Rightarrow> (val list) state option" where
  "scenarioFlushed v0 v1 v2 =
     (case ref v0 (init []) of (c, s1) \<Rightarrow>
      case watchEffect 0 s1 of (n, s2) \<Rightarrow>
      case runMicrotasks (runJob0 (logger c)) 10 s2 of
        None \<Rightarrow> None
      | Some s3 \<Rightarrow> runMicrotasks (runJob0 (logger c)) 10 (refSet c v2 (refSet c v1 s3)))"

subsection \<open>Programs and states for the scheduler\<close>


text \<open>
  A program whose function 0 throws and whose other functions push their number on the
  user's list, and the state after \<open>watchEffect(f); watchEffect(g)\<close>.
\<close>

definition faulty :: "(nat list) prog" where
  "faulty =
     \<lparr> effectBody = (\<lambda>f n s. if f = 0 then (Throws, s) else (Returns (), s\<lparr>user := user s @ [f]\<rparr>)),
       cleanupBody = (\<lambda>f s. (Returns (), s)),
       getterBody = (\<lambda>f s. (Returns Undefined, s)) \<rparr>"

definition twoQueued :: "fid \<Rightarrow> fid \<Rightarrow> (nat list) state" where
  "twoQueued f g = snd (watchEffect g (snd (watchEffect f (init []))))"


subsection \<open>A program that registers a cleanup\<close>

text \<open>
  \<open>watchEffect((onCleanup) => onCleanup(fn))\<close> where \<open>fn\<close> counts its calls in
  the user variable; then the flush, \<open>stop()\<close> and \<open>stop()\<close> again.  The result is
  the count after the flush, after the first and after the second \<open>stop\<close>.
\<close>

definition cleanupCounter :: "nat prog" where
  "cleanupCounter =
     \<lparr> effectBody = (\<lambda>f n s. (Returns (), registerCleanup n 1 s)),
       cleanupBody = (\<lambda>f s. (Returns (), s\<lparr>user := Suc (user s)\<rparr>)),
       getterBody = (\<lambda>f s. (Returns Undefined, s)) \<rparr>"

definition stopTwice ::
  "(job \<Rightarrow> nat state \<Rightarrow> unit outcome \<times> nat state) \<Rightarrow> (nat \<times> nat \<times> nat) option" where
  "stopTwice run =
     (case watchEffect 0 (init 0) of (n, s1) \<Rightarrow>
      case runMicrotasks run 10 s1 of
        None \<Rightarrow> None
      | Some s2 \<Rightarrow>
          (case stop cleanupCounter n s2 of (r3, s3) \<Rightarrow>
           case stop cleanupCounter n s3 of (r4, s4) \<Rightarrow>
           Some (user s2, user s3, user s4)))"

subsection \<open>A getter that counts its calls\<close>




subsection \<open>States for the proxy layer\<close>


text \<open>
  \<open>const arr = reactive([1, 2, 3])\<close> after an effect has read \<open>arr.length\<close>: the
  array is at 0, the proxy at 1.
\<close>

definition arrayStart :: "unit state" where
  "arrayStart =
     (case newObject (Array [Num 1, Num 2, Num 3] []) (init ()) of (t, s1) \<Rightarrow>
       (case reactive7 (Obj t) s1 of (p, s2) \<Rightarrow>
          (case getProp 2 1 (Name ''length'') (s2\<lparr>activeEffect := Some (WrappedEffect 0)\<rparr>) of
             None \<Rightarrow> s2
           | Some (v, s3) \<Rightarrow> s3\<lparr>activeEffect := None\<rparr>)))"







subsection \<open>A fault in a flush pass\<close>

text \<open>
  Two effects with the functions \<open>f\<close> and \<open>g\<close> are queued and the microtasks get their
  turn; then the second effect is queued once more, as a write to one of its dependencies
  would do, and the microtasks get another turn.  The result lists the functions that
  have run after the first turn, the flag and the live entries of the queue at that
  point, the number of flushes that the later \<open>queueJob\<close> has scheduled, and the
  functions that have run at the end.
\<close>

definition faultScenario ::
  "(job \<Rightarrow> (nat list) state \<Rightarrow> unit outcome \<times> (nat list) state) \<Rightarrow> fid \<Rightarrow> fid
     \<Rightarrow> (nat list \<times> bool \<times> job list \<times> nat \<times> nat list) option" where
  "faultScenario run f g =
     (case runMicrotasks run 10 (twoQueued f g) of
        None \<Rightarrow> None
      | Some s1 \<Rightarrow>
          (let s2 = queueJob (WrappedEffect 1) s1
           in case runMicrotasks run 10 s2 of
                None \<Rightarrow> None
              | Some s3 \<Rightarrow>
                  Some (user s1, isFlushPending s1, members (queue s1), microtasks s2, user s3)))"

subsection \<open>An effect that stops itself\<close>






subsection \<open>Synchronous code between \<open>watchEffect\<close> and \<open>stop\<close>\<close>





subsection \<open>A reader of a slot that holds a ref\<close>

text \<open>
  \<open>watchEffect(() => log.push(p.count))\<close> for the proxy at \<open>p\<close>; the list \<open>log\<close> is the
  user variable.
\<close>

definition logCount :: "addr \<Rightarrow> (val list) prog" where
  "logCount p =
     \<lparr> effectBody = (\<lambda>f n s.
          case getProp 5 p (Name ''count'') s of
            None \<Rightarrow> (Throws, s)
          | Some (v, s1) \<Rightarrow> (Returns (), s1\<lparr>user := user s1 @ [v]\<rparr>)),
       cleanupBody = (\<lambda>f s. (Returns (), s)),
       getterBody = (\<lambda>f s. (Returns Undefined, s)) \<rparr>"

text \<open>
  \<open>const p = reactive({ count: ref(a) })\<close>, the effect and the flush; then
  \<open>p.count = ref(b)\<close>, the flush, and a read of \<open>p.count\<close> outside any effect.  The
  first ref is the object at 0 behind its proxy at 1, the outer object is at 2 behind
  \<open>p\<close> at 3, the second ref is at 4 behind its proxy at 5.  The result: the log after
  the first flush, the subscribers of \<open>(object, "count")\<close> and of \<open>(ref, "value")\<close> at
  that point, the live entries of the queue after the write, the log at the end, and the
  value read at the end.
\<close>

definition refSlotScenario ::
  "int \<Rightarrow> int \<Rightarrow> (val list \<times> job list \<times> job list \<times> job list \<times> val list \<times> val) option" where
  "refSlotScenario a b =
     (case ref7 (Num a) (init []) of (r, s1) \<Rightarrow>
      case newObject (Plain [(Name ''count'', r)]) s1 of (t, s2) \<Rightarrow>
      case reactive7 (Obj t) s2 of (p, s3) \<Rightarrow>
      case watchEffect 0 s3 of (n, s4) \<Rightarrow>
      case runMicrotasks (runJob (logCount 3)) 10 s4 of
        None \<Rightarrow> None
      | Some s5 \<Rightarrow>
          (case ref7 (Num b) s5 of (r', s6) \<Rightarrow>
           case setProp (runJob (logCount 3)) 5 3 (Name ''count'') r' s6 of
             None \<Rightarrow> None
           | Some (w, s7) \<Rightarrow>
               (case runMicrotasks (runJob (logCount 3)) 10 s7 of
                  None \<Rightarrow> None
                | Some s8 \<Rightarrow>
                    (case getProp 5 3 (Name ''count'') s8 of
                       None \<Rightarrow> None
                     | Some (v, s9) \<Rightarrow>
                         Some (user s5, subscribers s5 t (Name ''count''),
                               subscribers s5 0 (Name ''value''), members (queue s7),
                               user s8, v)))))"

text \<open>
  The same with a number in the slot: \<open>const p = reactive({ count: a })\<close>, the effect
  and the flush, \<open>p.count = b\<close>, the flush and the read.  The object is at 0 behind \<open>p\<close>
  at 1.
\<close>

definition plainSlotScenario ::
  "int \<Rightarrow> int \<Rightarrow> (val list \<times> job list \<times> job list \<times> val list \<times> val) option" where
  "plainSlotScenario a b =
     (case newObject (Plain [(Name ''count'', Num a)]) (init []) of (t, s2) \<Rightarrow>
      case reactive7 (Obj t) s2 of (p, s3) \<Rightarrow>
      case watchEffect 0 s3 of (n, s4) \<Rightarrow>
      case runMicrotasks (runJob (logCount 1)) 10 s4 of
        None \<Rightarrow> None
      | Some s5 \<Rightarrow>
          (case setProp (runJob (logCount 1)) 5 1 (Name ''count'') (Num b) s5 of
             None \<Rightarrow> None
           | Some (w, s7) \<Rightarrow>
               (case runMicrotasks (runJob (logCount 1)) 10 s7 of
                  None \<Rightarrow> None
                | Some s8 \<Rightarrow>
                    (case getProp 5 1 (Name ''count'') s8 of
                       None \<Rightarrow> None
                     | Some (v, s9) \<Rightarrow>
                         Some (user s5, subscribers s5 t (Name ''count''), members (queue s7),
                               user s8, v)))))"

subsection \<open>A \<open>readonly\<close> view of an array\<close>


section \<open>The flush loop\<close>



lemma members_Nil [simp]: "members [] = []"
  by (simp add: members_def)
lemma members_Cons_Some [simp]: "members (Some x # q) = x # members q"
  by (simp add: members_def)
lemma members_Cons_None [simp]: "members (None # q) = members q"
  by (simp add: members_def)
lemma members_append [simp]: "members (q @ q') = members q @ members q'"
  by (simp add: members_def)
lemma set_members: "x \<in> set (members q) \<longleftrightarrow> Some x \<in> set q"
  by (induction q) (auto simp: members_def split: option.splits)





section \<open>The end-to-end scenario\<close>

lemmas scenario_defs =
  ref_def init_def watchEffect_def queueJob_def queueAdd_def refSet_def trigger_def
  flushJobs_def runJob0_def wrappedEffect0_def runCleanup_def logger_def refGet_def
  track_def setAdd_def Let_def numeral_nat

text \<open>
  C1 (as the code has it).  \<open>watchEffect\<close> does not run the body; it enqueues the first
  run.  When that first run has been flushed before the two writes, the log after the
  next flush is the initial value followed by the last value written: the two writes
  collapse into one re-run.  When the writes come before the first flush, as the scenario
  is written, the only run is the first one and the log holds the last value alone.
\<close>

theorem end_to_end_log:
  "map_option user (scenarioFlushed v0 v1 v2) = Some [v0, v2]
   \<and> map_option user (scenario v0 v1 v2) = Some [v2]"
  by (simp add: scenarioFlushed_def scenario_def scenario_defs)

theorem end_to_end_log_witness:
  "map_option user (scenarioFlushed (Num 0) (Num 1) (Num 2)) = Some [Num 0, Num 2]"
  using end_to_end_log [of "Num 0" "Num 1" "Num 2"] by simp

text \<open>
  C1 as stated fails: with \<open>c = ref(0)\<close>, the effect, \<open>c.value = 1\<close>, \<open>c.value = 2\<close> and
  then the flush, the log is not \<open>[0, 2]\<close>.
\<close>

theorem end_to_end_counterexample:
  "map_option user (scenario (Num 0) (Num 1) (Num 2)) \<noteq> Some [Num 0, Num 2]"
  by (simp add: scenario_def scenario_defs)

section \<open>Faults and order in a flush pass\<close>










lemma queue_queueJob: "queue (queueJob j s) = queueAdd j (queue s)"
  by (simp add: queueJob_def Let_def)





lemmas fault_eval =
  faultScenario_def twoQueued_def init_def watchEffect_def queueJob_def queueAdd_def flushJobs_def
  runJob0_def runJob_def wrappedEffect0_def wrappedEffect_def pushEffect_def popEffect_def
  runCleanup_def faulty_def members_def Let_def numeral_nat

text \<open>
  C3 (the code at the failing input).  \<open>flushJobs\<close> has no handler around \<open>job()\<close>
  and no \<open>finally\<close> around its loop.  With two effects queued, the first of which
  throws, the exception leaves \<open>flushJobs\<close>: the second effect has not run, both are
  still in the queue, and \<open>isFlushPending\<close> is still set.  From then on \<open>queueJob\<close>
  schedules no flush, so the second effect, queued again, does not run in the next turn
  of the microtasks either.  Both versions of \<open>wrappedEffect\<close> give this.  With two
  effects that return, both have run, the queue is empty, the flag is reset, and the
  effect queued again runs in the flush that \<open>queueJob\<close> schedules.
\<close>

theorem fault_ends_pass_and_blocks_scheduler:
  "faultScenario (runJob0 faulty) 0 1 = Some ([], True, [WrappedEffect 0, WrappedEffect 1], 0, [])
   \<and> faultScenario (runJob faulty) 0 1 = Some ([], True, [WrappedEffect 0, WrappedEffect 1], 0, [])
   \<and> faultScenario (runJob0 faulty) 1 2 = Some ([1, 2], False, [], 1, [1, 2, 2])"
  by (simp add: fault_eval)






section \<open>Stopping an effect\<close>

lemma queue_fold_queueJob: "queue (fold queueJob js s) = fold queueAdd js (queue s)"
  by (induction js arbitrary: s) (simp_all add: queue_queueJob)

lemma in_fold_queueAdd: "Some j \<in> set (fold queueAdd js q) \<longleftrightarrow> j \<in> set js \<or> Some j \<in> set q"
  by (induction js arbitrary: q) (auto simp: queueAdd_def)


lemma pruneDeps_removes: "map_of (pruneDeps e m) k = Some dep \<Longrightarrow> e \<notin> set dep"
  by (induction e m rule: pruneDeps.induct) (auto split: if_splits)

lemma pruneTargets_removes:
  "map_of (pruneTargets e tm) t = Some dm \<Longrightarrow> map_of dm k = Some dep \<Longrightarrow> e \<notin> set dep"
  by (induction e tm rule: pruneTargets.induct) (auto split: if_splits dest: pruneDeps_removes)

lemma removeEffect_subscribers: "e \<notin> set (subscribers (removeEffect e s) t k)"
proof (cases "map_of (pruneTargets e (targetMap s)) t")
  case None
  then show ?thesis by (simp add: subscribers_def removeEffect_def)
next
  case (Some dm)
  show ?thesis
  proof (cases "map_of dm k")
    case None
    with Some show ?thesis by (simp add: subscribers_def removeEffect_def)
  next
    case (Some dep)
    from pruneTargets_removes [OF \<open>map_of (pruneTargets e (targetMap s)) t = Some dm\<close> Some]
    show ?thesis using Some \<open>map_of (pruneTargets e (targetMap s)) t = Some dm\<close>
      by (simp add: subscribers_def removeEffect_def)
  qed
qed




lemmas stop_eval =
  stopTwice_def init_def watchEffect_def queueJob_def queueAdd_def flushJobs_def runJob_def runJob0_def
  wrappedEffect_def wrappedEffect0_def runCleanup_def pushEffect_def popEffect_def cleanupCounter_def
  registerCleanup_def stop_def queueDelete_def removeEffect_def Let_def numeral_nat

text \<open>
  C2 (the code at the failing input).  The \<open>stop\<close> closure calls \<open>cleanup\<close> and
  leaves the variable set, so a second \<open>stop()\<close> calls the same cleanup again: after
  the flush the cleanup has run 0 times, after the first \<open>stop\<close> once, after the second
  twice.  Both versions of \<open>wrappedEffect\<close> give this.
\<close>

theorem stop_twice_runs_cleanup_twice:
  "stopTwice (runJob0 cleanupCounter) = Some (0, 1, 2)
   \<and> stopTwice (runJob cleanupCounter) = Some (0, 1, 2)"
  by (simp add: stop_eval)
























section \<open>Memoization of \<open>computed\<close>\<close>

lemma user_track [simp]: "user (track t k s) = user s"
  by (simp add: track_def Let_def split: option.splits)

lemma computedCell_track [simp]: "computedCell (track t k s) = computedCell s"
  by (simp add: track_def Let_def split: option.splits)

lemma trigger_enqueues:
  "j \<in> set (subscribers s t k) \<Longrightarrow> j \<in> set (members (queue (trigger t k s)))"
  by (auto simp: subscribers_def trigger_def set_members queue_fold_queueJob in_fold_queueAdd
           split: option.splits)

lemma subscribers_refValue [simp]: "subscribers (s\<lparr>refValue := m\<rparr>) t k = subscribers s t k"
  by (simp add: subscribers_def)




section \<open>The proxy traps\<close>

lemma map_of_mapSet: "map_of (mapSet k v m) k' = (if k' = k then Some v else map_of m k')"
  by (induction m) auto

lemma heap_track [simp]: "heap (track t k s) = heap s"
  by (simp add: track_def Let_def split: option.splits)

lemma queue_track [simp]: "queue (track t k s) = queue s"
  by (simp add: track_def Let_def split: option.splits)

lemma nextAddr_track [simp]: "nextAddr (track t k s) = nextAddr s"
  by (simp add: track_def Let_def split: option.splits)

lemma activeEffect_track [simp]: "activeEffect (track t k s) = activeEffect s"
  by (simp add: track_def Let_def split: option.splits)

lemma subscribers_track:
  "subscribers (track a k' s) t k =
     (case activeEffect s of
        None \<Rightarrow> subscribers s t k
      | Some e \<Rightarrow> if a = t \<and> k' = k then setAdd e (subscribers s t k) else subscribers s t k)"
  by (auto simp: subscribers_def track_def Let_def map_of_mapSet split: option.splits)

lemma subscribers_track_mono: "j \<in> set (subscribers s t k) \<Longrightarrow> j \<in> set (subscribers (track a k' s) t k)"
  by (auto simp: subscribers_track setAdd_def split: option.splits)


lemmas slot_eval =
  refSlotScenario_def plainSlotScenario_def logCount_def ref7_def reactive7_def newProxy_def
  newObject_def isArray_def init_def watchEffect_def isRef_def truthy_def ownProp_def
  queueJob_def queueAdd_def runJob_def wrappedEffect_def pushEffect_def popEffect_def
  runCleanup_def flushJobs_def track_def trigger_def setAdd_def subscribers_def members_def
  Let_def numeral_nat

text \<open>
  C4 (the code at the failing input).  The day-7 \<open>get\<close> trap tests \<open>isRef(result)\<close>
  first and returns \<open>result.value\<close> before \<open>track(target, key)\<close> is reached.  After an
  effect has read \<open>p.count\<close>, where the slot holds a ref, \<open>(target, "count")\<close> has no
  subscriber; the effect is a subscriber of the ref's own \<open>"value"\<close>.  When the slot
  is then given another ref, the \<open>set\<close> trap stores it and triggers
  \<open>(target, "count")\<close>, which reaches nobody: the queue stays empty, the effect does not
  run again, and its log still ends with the old value while \<open>p.count\<close> reads the new
  one.  With a number in the slot the read does track \<open>(target, "count")\<close>, and a
  write of another number enqueues the effect, which logs the new value.
\<close>

theorem ref_slot_read_is_not_tracked:
  "refSlotScenario a b = Some ([Num a], [], [WrappedEffect 0], [], [Num a], Num b)
   \<and> plainSlotScenario a b
       = Some ([Num a], [WrappedEffect 0], if a = b then [] else [WrappedEffect 0],
               if a = b then [Num a] else [Num a, Num b], Num b)"
  by (simp add: slot_eval)













lemma heap_queueJob [simp]: "heap (queueJob j s) = heap s"
  by (simp add: queueJob_def Let_def)

lemma targetMap_queueJob [simp]: "targetMap (queueJob j s) = targetMap s"
  by (simp add: queueJob_def Let_def)

lemma heap_fold_queueJob [simp]: "heap (fold queueJob js s) = heap s"
  by (induction js arbitrary: s) simp_all

lemma targetMap_fold_queueJob [simp]: "targetMap (fold queueJob js s) = targetMap s"
  by (induction js arbitrary: s) simp_all

lemma heap_trigger [simp]: "heap (trigger t k s) = heap s"
  by (simp add: trigger_def split: option.splits)

lemma targetMap_trigger [simp]: "targetMap (trigger t k s) = targetMap s"
  by (simp add: trigger_def split: option.splits)

lemma subscribers_trigger [simp]: "subscribers (trigger t k s) t' k' = subscribers s t' k'"
  by (simp add: subscribers_def)

lemma subscribers_heap [simp]: "subscribers (s\<lparr>heap := h\<rparr>) t k = subscribers s t k"
  by (simp add: subscribers_def)

lemma trigger_keeps_queued:
  "j \<in> set (members (queue s)) \<Longrightarrow> j \<in> set (members (queue (trigger t k s)))"
  by (auto simp: trigger_def set_members queue_fold_queueJob in_fold_queueAdd split: option.splits)

lemma microtasks_track [simp]: "microtasks (track t k s) = microtasks s"
  by (simp add: track_def Let_def split: option.splits)

lemma isFlushPending_track [simp]: "isFlushPending (track t k s) = isFlushPending s"
  by (simp add: track_def Let_def split: option.splits)

lemma array_set_changed:
  assumes p: "heap s p = Some (Proxy Reactive7 True t)" and t: "heap s t = Some (Array xs ps)"
    and st: "arraySet xs ps k v = Written ob" and ch: "arrayProp xs ps k \<noteq> v"
  shows "setProp run (Suc (Suc n)) p k v s =
           Some (Returns True,
                 if k \<noteq> Name ''length''
                 then trigger t (Name ''length'') (trigger t k (s\<lparr>heap := (heap s)(t \<mapsto> ob)\<rparr>))
                 else trigger t k (s\<lparr>heap := (heap s)(t \<mapsto> ob)\<rparr>))"
proof -
  have g: "getProp (Suc n) t k s = Some (arrayProp xs ps k, s)" using t by simp
  have w: "setProp run (Suc n) t k v s = Some (Returns True, s\<lparr>heap := (heap s)(t \<mapsto> ob)\<rparr>)"
    using t st by simp
  show ?thesis
    using p g w ch
    by (simp add: Let_def del: getProp.simps(2) setProp.simps(2) add: setProp.simps(2) [of run "Suc n" p])
qed

lemma array_set_same:
  assumes p: "heap s p = Some (Proxy Reactive7 True t)" and t: "heap s t = Some (Array xs ps)"
    and st: "arraySet xs ps k v = Written ob" and same: "arrayProp xs ps k = v"
  shows "setProp run (Suc (Suc n)) p k v s = Some (Returns True, s\<lparr>heap := (heap s)(t \<mapsto> ob)\<rparr>)"
proof -
  have g: "getProp (Suc n) t k s = Some (arrayProp xs ps k, s)" using t by simp
  have w: "setProp run (Suc n) t k v s = Some (Returns True, s\<lparr>heap := (heap s)(t \<mapsto> ob)\<rparr>)"
    using t st by simp
  show ?thesis
    using p g w same
    by (simp add: Let_def del: getProp.simps(2) setProp.simps(2) add: setProp.simps(2) [of run "Suc n" p])
qed

lemma array_get_primitive:
  assumes p: "heap s p = Some (Proxy Reactive7 True t)" and t: "heap s t = Some (Array xs ps)"
    and prim: "\<forall>a. arrayProp xs ps k \<noteq> Obj a"
  shows "getProp (Suc (Suc n)) p k s = Some (arrayProp xs ps k, track t k s)"
proof -
  have g: "getProp (Suc n) t k s = Some (arrayProp xs ps k, s)" using t by simp
  show ?thesis
    using p g prim
    by (cases "arrayProp xs ps k")
       (simp_all add: reactive7_def del: getProp.simps(2) add: getProp.simps(2) [of "Suc n" p])
qed

lemma arraySet_append:
  "length xs < 4294967295 \<Longrightarrow> arraySet xs ps (Idx (length xs)) v = Written (Array (xs @ [v]) ps)"
  by (simp add: arraySet_def)

lemma arraySet_length_same:
  "length xs < 4294967296 \<Longrightarrow>
     arraySet xs ps (Name ''length'') (Num (int (length xs))) = Written (Array xs ps)"
  by (simp add: arraySet_def toLength_def)

lemma array_push:
  assumes p: "heap s p = Some (Proxy Reactive7 True t)" and t: "heap s t = Some (Array xs ps)"
    and v: "v \<noteq> Undefined" and nopush: "ownProp ps (Name ''push'') = Undefined"
    and len: "length xs < 4294967295"
  shows "\<exists>s'. arrayPush run (Suc (Suc n)) p v s = Some (Returns (Num (int (length xs) + 1)), s')
           \<and> heap s' t = Some (Array (xs @ [v]) ps)
           \<and> (\<forall>j. j \<in> set (subscribers s t (Name ''length'')) \<longrightarrow> j \<in> set (members (queue s')))"
proof -
  let ?len = "length xs"
  define s1 where "s1 = track t (Name ''push'') s"
  define s2 where "s2 = track t (Name ''length'') s1"
  define s3 where "s3 = trigger t (Name ''length'')
                          (trigger t (Idx ?len) (s2\<lparr>heap := (heap s2)(t \<mapsto> Array (xs @ [v]) ps)\<rparr>))"
  define s4 where "s4 = s3\<lparr>heap := (heap s3)(t \<mapsto> Array (xs @ [v]) ps)\<rparr>"
  from p t have pt: "p \<noteq> t" by auto
  have g1: "getProp (Suc (Suc n)) p (Name ''push'') s = Some (Undefined, s1)"
    using array_get_primitive [OF p t, of "Name ''push''" n] nopush
    by (simp add: arrayProp_def s1_def)
  have p1: "heap s1 p = Some (Proxy Reactive7 True t)" and t1: "heap s1 t = Some (Array xs ps)"
    using p t by (simp_all add: s1_def)
  have g2: "getProp (Suc (Suc n)) p (Name ''length'') s1 = Some (Num (int ?len), s2)"
    using array_get_primitive [OF p1 t1, of "Name ''length''" n]
    by (simp add: arrayProp_def s2_def)
  have p2: "heap s2 p = Some (Proxy Reactive7 True t)" and t2: "heap s2 t = Some (Array xs ps)"
    using p1 t1 by (simp_all add: s2_def)
  have st3: "arraySet xs ps (Idx ?len) v = Written (Array (xs @ [v]) ps)"
    using len by (rule arraySet_append)
  have ch3: "arrayProp xs ps (Idx ?len) \<noteq> v" using v len by (simp add: arrayProp_def)
  have w3: "setProp run (Suc (Suc n)) p (Idx ?len) v s2 = Some (Returns True, s3)"
    using array_set_changed [OF p2 t2 st3 ch3, of run n] by (simp add: s3_def)
  have p3: "heap s3 p = Some (Proxy Reactive7 True t)" and t3: "heap s3 t = Some (Array (xs @ [v]) ps)"
    using p2 pt by (simp_all add: s3_def)
  have st4: "arraySet (xs @ [v]) ps (Name ''length'') (Num (int ?len + 1)) = Written (Array (xs @ [v]) ps)"
    using arraySet_length_same [of "xs @ [v]" ps] len by (simp add: add.commute)
  have same4: "arrayProp (xs @ [v]) ps (Name ''length'') = Num (int ?len + 1)"
    by (simp add: arrayProp_def)
  have w4: "setProp run (Suc (Suc n)) p (Name ''length'') (Num (int ?len + 1)) s3 = Some (Returns True, s4)"
    using array_set_same [OF p3 t3 st4 same4, of run n] by (simp add: s4_def)
  have push: "arrayPush run (Suc (Suc n)) p v s = Some (Returns (Num (int ?len + 1)), s4)"
    unfolding arrayPush_def using g1 g2 w3 w4
    by (simp add: Let_def del: getProp.simps setProp.simps)
  have h4: "heap s4 t = Some (Array (xs @ [v]) ps)" by (simp add: s4_def)
  have q: "\<forall>j. j \<in> set (subscribers s t (Name ''length'')) \<longrightarrow> j \<in> set (members (queue s4))"
  proof (intro allI impI)
    fix j assume "j \<in> set (subscribers s t (Name ''length''))"
    then have "j \<in> set (subscribers s2 t (Name ''length''))"
      unfolding s2_def s1_def by (intro subscribers_track_mono)
    then have "j \<in> set (subscribers (trigger t (Idx ?len) (s2\<lparr>heap := (heap s2)(t \<mapsto> Array (xs @ [v]) ps)\<rparr>))
                       t (Name ''length''))" by simp
    then have "j \<in> set (members (queue s3))" unfolding s3_def by (rule trigger_enqueues)
    then show "j \<in> set (members (queue s4))" by (simp add: s4_def)
  qed
  from push h4 q show ?thesis by blast
qed

lemma array_push_undefined:
  assumes p: "heap s p = Some (Proxy Reactive7 True t)" and t: "heap s t = Some (Array xs ps)"
    and nopush: "ownProp ps (Name ''push'') = Undefined" and len: "length xs < 4294967295"
  shows "\<exists>s'. arrayPush run (Suc (Suc n)) p Undefined s = Some (Returns (Num (int (length xs) + 1)), s')
           \<and> heap s' t = Some (Array (xs @ [Undefined]) ps)
           \<and> queue s' = queue s \<and> microtasks s' = microtasks s
           \<and> isFlushPending s' = isFlushPending s
           \<and> (\<forall>j. j \<in> set (subscribers s t (Name ''length''))
                  \<longrightarrow> j \<in> set (subscribers s' t (Name ''length'')))"
proof -
  let ?len = "length xs"
  let ?ob = "Array (xs @ [Undefined]) ps"
  define s1 where "s1 = track t (Name ''push'') s"
  define s2 where "s2 = track t (Name ''length'') s1"
  define s3 where "s3 = s2\<lparr>heap := (heap s2)(t \<mapsto> ?ob)\<rparr>"
  define s4 where "s4 = s3\<lparr>heap := (heap s3)(t \<mapsto> ?ob)\<rparr>"
  from p t have pt: "p \<noteq> t" by auto
  have g1: "getProp (Suc (Suc n)) p (Name ''push'') s = Some (Undefined, s1)"
    using array_get_primitive [OF p t, of "Name ''push''" n] nopush
    by (simp add: arrayProp_def s1_def)
  have p1: "heap s1 p = Some (Proxy Reactive7 True t)" and t1: "heap s1 t = Some (Array xs ps)"
    using p t by (simp_all add: s1_def)
  have g2: "getProp (Suc (Suc n)) p (Name ''length'') s1 = Some (Num (int ?len), s2)"
    using array_get_primitive [OF p1 t1, of "Name ''length''" n]
    by (simp add: arrayProp_def s2_def)
  have p2: "heap s2 p = Some (Proxy Reactive7 True t)" and t2: "heap s2 t = Some (Array xs ps)"
    using p1 t1 by (simp_all add: s2_def)
  have st3: "arraySet xs ps (Idx ?len) Undefined = Written ?ob"
    using len by (rule arraySet_append)
  have same3: "arrayProp xs ps (Idx ?len) = Undefined" using len by (simp add: arrayProp_def)
  have w3: "setProp run (Suc (Suc n)) p (Idx ?len) Undefined s2 = Some (Returns True, s3)"
    using array_set_same [OF p2 t2 st3 same3, of run n] by (simp add: s3_def)
  have p3: "heap s3 p = Some (Proxy Reactive7 True t)" and t3: "heap s3 t = Some ?ob"
    using p2 pt by (simp_all add: s3_def)
  have st4: "arraySet (xs @ [Undefined]) ps (Name ''length'') (Num (int ?len + 1)) = Written ?ob"
    using arraySet_length_same [of "xs @ [Undefined]" ps] len by (simp add: add.commute)
  have same4: "arrayProp (xs @ [Undefined]) ps (Name ''length'') = Num (int ?len + 1)"
    by (simp add: arrayProp_def)
  have w4: "setProp run (Suc (Suc n)) p (Name ''length'') (Num (int ?len + 1)) s3 = Some (Returns True, s4)"
    using array_set_same [OF p3 t3 st4 same4, of run n] by (simp add: s4_def)
  have push: "arrayPush run (Suc (Suc n)) p Undefined s = Some (Returns (Num (int ?len + 1)), s4)"
    unfolding arrayPush_def using g1 g2 w3 w4
    by (simp add: Let_def del: getProp.simps setProp.simps)
  have h4: "heap s4 t = Some ?ob" by (simp add: s4_def)
  have q: "queue s4 = queue s" "microtasks s4 = microtasks s" "isFlushPending s4 = isFlushPending s"
    by (simp_all add: s4_def s3_def s2_def s1_def)
  have sub: "\<forall>j. j \<in> set (subscribers s t (Name ''length''))
                  \<longrightarrow> j \<in> set (subscribers s4 t (Name ''length''))"
  proof (intro allI impI)
    fix j assume "j \<in> set (subscribers s t (Name ''length''))"
    then have "j \<in> set (subscribers s2 t (Name ''length''))"
      unfolding s2_def s1_def by (intro subscribers_track_mono)
    then show "j \<in> set (subscribers s4 t (Name ''length''))" by (simp add: s4_def s3_def)
  qed
  from push h4 q sub show ?thesis by blast
qed

text \<open>
  C8 (the code at the failing input).  The \<open>set\<close> trap of a day-7 array proxy decides by
  \<open>oldValue !== value\<close> whether it triggers.  \<open>push(undefined)\<close> writes \<open>undefined\<close>
  at the index one past the end, where the read before the write gave \<open>undefined\<close>
  already: the array grows by one element and the trap triggers nothing, neither at the
  index nor, when \<open>push\<close> then writes \<open>length\<close>, at \<open>length\<close>, which the write at the
  index has changed before the trap reads it.  The queue, the flag and the scheduled
  flushes are what they were, so an effect that had read \<open>length\<close> is still a subscriber
  and is not scheduled.  A \<open>push\<close> of any other value grows the array and enqueues
  every effect that had read \<open>length\<close>.
\<close>

theorem push_of_undefined_notifies_nobody:
  assumes p: "heap s p = Some (Proxy Reactive7 True t)" and t: "heap s t = Some (Array xs ps)"
    and nopush: "ownProp ps (Name ''push'') = Undefined" and len: "length xs < 4294967295"
  shows "(\<exists>s'. arrayPush run (Suc (Suc n)) p Undefined s = Some (Returns (Num (int (length xs) + 1)), s')
           \<and> heap s' t = Some (Array (xs @ [Undefined]) ps)
           \<and> queue s' = queue s \<and> microtasks s' = microtasks s
           \<and> isFlushPending s' = isFlushPending s
           \<and> (\<forall>j. j \<in> set (subscribers s t (Name ''length''))
                  \<longrightarrow> j \<in> set (subscribers s' t (Name ''length''))))
     \<and> (\<forall>v. v \<noteq> Undefined \<longrightarrow>
            (\<exists>s'. arrayPush run (Suc (Suc n)) p v s = Some (Returns (Num (int (length xs) + 1)), s')
                 \<and> heap s' t = Some (Array (xs @ [v]) ps)
                 \<and> (\<forall>j. j \<in> set (subscribers s t (Name ''length'')) \<longrightarrow>
                        j \<in> set (members (queue s')))))"
proof (intro conjI allI impI)
  show "\<exists>s'. arrayPush run (Suc (Suc n)) p Undefined s = Some (Returns (Num (int (length xs) + 1)), s')
           \<and> heap s' t = Some (Array (xs @ [Undefined]) ps)
           \<and> queue s' = queue s \<and> microtasks s' = microtasks s
           \<and> isFlushPending s' = isFlushPending s
           \<and> (\<forall>j. j \<in> set (subscribers s t (Name ''length''))
                  \<longrightarrow> j \<in> set (subscribers s' t (Name ''length'')))"
    by (rule array_push_undefined [OF p t nopush len])
next
  fix v :: val
  assume v: "v \<noteq> Undefined"
  show "\<exists>s'. arrayPush run (Suc (Suc n)) p v s = Some (Returns (Num (int (length xs) + 1)), s')
                 \<and> heap s' t = Some (Array (xs @ [v]) ps)
                 \<and> (\<forall>j. j \<in> set (subscribers s t (Name ''length'')) \<longrightarrow>
                        j \<in> set (members (queue s')))"
    by (rule array_push [OF p t v nopush len])
qed

lemmas array_eval =
  arrayStart_def reactive7_def newProxy_def newObject_def isArray_def init_def
  ownProp_def arrayProp_def track_def setAdd_def subscribers_def Let_def numeral_nat

theorem push_of_undefined_notifies_nobody_witness:
  "(\<exists>s'. arrayPush (\<lambda>j s. (Returns (), s)) (Suc (Suc 0)) 1 Undefined arrayStart
             = Some (Returns (Num 4), s')
        \<and> heap s' 0 = Some (Array [Num 1, Num 2, Num 3, Undefined] [])
        \<and> WrappedEffect 0 \<in> set (subscribers s' 0 (Name ''length''))
        \<and> members (queue s') = [] \<and> microtasks s' = 0 \<and> \<not> isFlushPending s')
   \<and> (\<exists>s'. arrayPush (\<lambda>j s. (Returns (), s)) (Suc (Suc 0)) 1 (Num 4) arrayStart
             = Some (Returns (Num 4), s')
        \<and> heap s' 0 = Some (Array [Num 1, Num 2, Num 3, Num 4] [])
        \<and> WrappedEffect 0 \<in> set (members (queue s')))"
proof -
  have p: "heap arrayStart 1 = Some (Proxy Reactive7 True 0)"
    and t: "heap arrayStart 0 = Some (Array [Num 1, Num 2, Num 3] [])"
    and sub: "WrappedEffect 0 \<in> set (subscribers arrayStart 0 (Name ''length''))"
    and q: "queue arrayStart = []" "microtasks arrayStart = 0" "\<not> isFlushPending arrayStart"
    by (simp_all add: array_eval)
  have np: "ownProp [] (Name ''push'') = Undefined" by (simp add: ownProp_def)
  have len: "length [Num 1, Num 2, Num 3] < 4294967295" by simp
  note th = push_of_undefined_notifies_nobody [OF p t np len, of "\<lambda>j s. (Returns (), s)" 0]
  from th obtain s' where
    a1: "arrayPush (\<lambda>j s. (Returns (), s)) (Suc (Suc 0)) 1 Undefined arrayStart
           = Some (Returns (Num (int (length [Num 1, Num 2, Num 3]) + 1)), s')"
    and a2: "heap s' 0 = Some (Array ([Num 1, Num 2, Num 3] @ [Undefined]) [])"
    and a3: "queue s' = queue arrayStart" "microtasks s' = microtasks arrayStart"
            "isFlushPending s' = isFlushPending arrayStart"
    and a4: "\<forall>j. j \<in> set (subscribers arrayStart 0 (Name ''length''))
                  \<longrightarrow> j \<in> set (subscribers s' 0 (Name ''length''))"
    by (elim conjE exE) (rule that; assumption)
  from a4 sub have a5: "WrappedEffect 0 \<in> set (subscribers s' 0 (Name ''length''))" by blast
  from a1 a2 a3 a5 q
  have first: "\<exists>s'. arrayPush (\<lambda>j s. (Returns (), s)) (Suc (Suc 0)) 1 Undefined arrayStart
             = Some (Returns (Num 4), s')
        \<and> heap s' 0 = Some (Array [Num 1, Num 2, Num 3, Undefined] [])
        \<and> WrappedEffect 0 \<in> set (subscribers s' 0 (Name ''length''))
        \<and> members (queue s') = [] \<and> microtasks s' = 0 \<and> \<not> isFlushPending s'"
    by (intro exI [of _ s']) (simp del: setProp.simps getProp.simps)
  have v: "Num 4 \<noteq> Undefined" by simp
  from th v sub have b: "\<exists>s'. arrayPush (\<lambda>j s. (Returns (), s)) (Suc (Suc 0)) 1 (Num 4) arrayStart
          = Some (Returns (Num (int (length [Num 1, Num 2, Num 3]) + 1)), s')
        \<and> heap s' 0 = Some (Array ([Num 1, Num 2, Num 3] @ [Num 4]) [])
        \<and> WrappedEffect 0 \<in> set (members (queue s'))"
    by blast
  then have second: "\<exists>s'. arrayPush (\<lambda>j s. (Returns (), s)) (Suc (Suc 0)) 1 (Num 4) arrayStart
             = Some (Returns (Num 4), s')
        \<and> heap s' 0 = Some (Array [Num 1, Num 2, Num 3, Num 4] [])
        \<and> WrappedEffect 0 \<in> set (members (queue s'))"
    by (simp del: setProp.simps getProp.simps)
  from first second show ?thesis ..
qed








lemma subscribers_activeEffect [simp]: "subscribers (s\<lparr>activeEffect := x\<rparr>) t k = subscribers s t k"
  by (simp add: subscribers_def)







end
